theory Spec2Isabelle
  imports Complex_Main "HOL-Library.Word"
begin

unbundle bit_operations_syntax

section \<open>Bytes, slices and the wire format (main.go)\<close>

type_synonym byte = "8 word"

text \<open>
  Go's \<^verbatim>\<open>int\<close> is modelled by \<open>int\<close>: every value below is a byte, a 32-bit size or a
  sum of a few of them, far from the 64-bit bounds. A run-time panic of Go (an index or
  a slice bound out of range) is a value of the model.
\<close>

datatype panic = IndexOutOfRange | SliceBoundsOutOfRange

text \<open>\<^verbatim>\<open>xs[i]\<close>\<close>

definition index :: "byte list \<Rightarrow> int \<Rightarrow> panic + byte" where
  "index xs i =
     (if 0 \<le> i \<and> i < int (length xs) then Inr (xs ! nat i) else Inl IndexOutOfRange)"

text \<open>
  \<^verbatim>\<open>xs[lo:hi]\<close>. The bound of a slice expression is the capacity; the packet buffers are
  made with \<^verbatim>\<open>make([]byte, n)\<close>, whose capacity is their length.
\<close>

definition slice :: "byte list \<Rightarrow> int \<Rightarrow> int \<Rightarrow> panic + byte list" where
  "slice xs lo hi =
     (if 0 \<le> lo \<and> lo \<le> hi \<and> hi \<le> int (length xs)
      then Inr (take (nat (hi - lo)) (drop (nat lo) xs))
      else Inl SliceBoundsOutOfRange)"

text \<open>
  Modelled from the spec: \<^verbatim>\<open>ConvLittleEndianSliceToNumeric\<close> is declared in a file of the
  repository that is not among the sources. The spec: all numeric fields are
  little-endian on the wire; the size is 4 bytes, little-endian, u32; the command is a
  u16, little-endian.
\<close>

fun ConvLittleEndianSliceToNumeric :: "byte list \<Rightarrow> nat" where
  "ConvLittleEndianSliceToNumeric [] = 0"
| "ConvLittleEndianSliceToNumeric (b # bs) = unat b + 256 * ConvLittleEndianSliceToNumeric bs"

text \<open>\<^verbatim>\<open>binary.Write(&buf, binary.LittleEndian, v)\<close> for a \<^verbatim>\<open>uint32\<close> and a \<^verbatim>\<open>uint16\<close>.\<close>

definition le32 :: "32 word \<Rightarrow> byte list" where
  "le32 w = [ucast w, ucast (drop_bit 8 w), ucast (drop_bit 16 w), ucast (drop_bit 24 w)]"

definition le16 :: "16 word \<Rightarrow> byte list" where
  "le16 w = [ucast w, ucast (drop_bit 8 w)]"

text \<open>\<^verbatim>\<open>type networkUDPPacket struct\<close>\<close>

record networkUDPPacket =
  size_p :: int
  data_p :: "byte list"
  framePos :: int

text \<open>\<^verbatim>\<open>type protocolARNetworkAL struct\<close>\<close>

record protocolARNetworkAL =
  dataType :: int
  targetBufferID :: int
  sequenceNR :: int
  size_f :: int
  dataARNetwork :: "byte list"

text \<open>\<^verbatim>\<open>type protocolARCommands struct\<close>\<close>

record protocolARCommands =
  project :: int
  class_c :: int
  command :: int
  size_c :: int

subsection \<open>Decoding a frame of a packet\<close>

text \<open>
  \<^verbatim>\<open>func (packet *networkUDPPacket) decode() (protocolARNetworkAL, error)\<close>. The result
  is the frame, the packet with its cursor, and whether the error is \<^verbatim>\<open>io.EOF\<close> (the
  last frame of the packet); \<open>Inl\<close> is a panic. The reads are in the order of the source.
\<close>

definition networkUDPPacket_decode ::
  "networkUDPPacket \<Rightarrow> panic + (protocolARNetworkAL \<times> networkUDPPacket \<times> bool)" where
  "networkUDPPacket_decode packet =
     (case index (data_p packet) (framePos packet + 0) of Inl e \<Rightarrow> Inl e | Inr b0 \<Rightarrow>
      case index (data_p packet) (framePos packet + 1) of Inl e \<Rightarrow> Inl e | Inr b1 \<Rightarrow>
      case index (data_p packet) (framePos packet + 2) of Inl e \<Rightarrow> Inl e | Inr b2 \<Rightarrow>
      case slice (data_p packet) (framePos packet + 3) (framePos packet + 7) of
        Inl e \<Rightarrow> Inl e | Inr sz \<Rightarrow>
      let fsize = int (ConvLittleEndianSliceToNumeric sz) in
      case slice (data_p packet) (framePos packet + 7) (framePos packet + fsize) of
        Inl e \<Rightarrow> Inl e | Inr payload \<Rightarrow>
      let frame = \<lparr>dataType = uint b0, targetBufferID = uint b1, sequenceNR = uint b2,
                   size_f = fsize, dataARNetwork = payload\<rparr>
      in if framePos packet + fsize + 7 \<le> size_p packet
         then Inr (frame, packet\<lparr>framePos := framePos packet + fsize\<rparr>, False)
         else Inr (frame, packet, True))"

text \<open>
  \<^verbatim>\<open>func (p *protocolARNetworkAL) decode()\<close>, up to the look-up in \<^verbatim>\<open>CommandMap\<close> (the
  map and the argument decoders are declared outside the sources; their result is only
  printed). The function never returns a non-nil error; it panics on a payload shorter
  than the four bytes of project, class and command.
\<close>

definition protocolARNetworkAL_decode :: "protocolARNetworkAL \<Rightarrow> panic + protocolARCommands" where
  "protocolARNetworkAL_decode p =
     (case index (dataARNetwork p) 0 of Inl e \<Rightarrow> Inl e | Inr b0 \<Rightarrow>
      case index (dataARNetwork p) 1 of Inl e \<Rightarrow> Inl e | Inr b1 \<Rightarrow>
      case slice (dataARNetwork p) 2 4 of Inl e \<Rightarrow> Inl e | Inr cs \<Rightarrow>
      let cmd = \<lparr>project = uint b0, class_c = uint b1,
                 command = int (ConvLittleEndianSliceToNumeric cs), size_c = size_f p - 7\<rparr>
      in case slice (dataARNetwork p) 4 (size_c cmd) of Inl e \<Rightarrow> Inl e | Inr arguments \<Rightarrow>
         Inr cmd)"

subsection \<open>The packet creator and its sequence counters\<close>

text \<open>\<^verbatim>\<open>type udpPacketCreator struct { sequenceNR map[int]uint8 }\<close>\<close>

record udpPacketCreator =
  sequenceNRs :: "int \<rightharpoonup> byte"

definition newUdpPacketCreator :: udpPacketCreator where
  "newUdpPacketCreator = \<lparr>sequenceNRs = Map.empty\<rparr>"

text \<open>\<^verbatim>\<open>u.sequenceNR[k]\<close>: a key that is absent reads as the zero value.\<close>

definition seqRead :: "udpPacketCreator \<Rightarrow> int \<Rightarrow> byte" where
  "seqRead u k = (case sequenceNRs u k of None \<Rightarrow> 0 | Some v \<Rightarrow> v)"

text \<open>\<^verbatim>\<open>u.sequenceNR[k]++\<close>: the \<^verbatim>\<open>uint8\<close> wraps from 255 to 0.\<close>

definition seqIncr :: "udpPacketCreator \<Rightarrow> int \<Rightarrow> udpPacketCreator" where
  "seqIncr u k = u\<lparr>sequenceNRs := (sequenceNRs u)(k \<mapsto> seqRead u k + 1)\<rparr>"

text \<open>\<^verbatim>\<open>func (u *udpPacketCreator) encodePong(data protocolARNetworkAL) networkUDPPacket\<close>\<close>

definition encodePong ::
  "udpPacketCreator \<Rightarrow> protocolARNetworkAL \<Rightarrow> udpPacketCreator \<times> networkUDPPacket" where
  "encodePong u frame =
     (let u1 = seqIncr u (targetBufferID frame);
          pdataType = (2 :: byte);
          ptargetBufferID = (word_of_int (targetBufferID frame) :: byte);
          psequenceNR = seqRead u1 (uint ptargetBufferID);
          psize = [8, 0, 0, 0];
          pdata = dataARNetwork frame;
          u2 = seqIncr u1 (uint ptargetBufferID);
          d = [pdataType, ptargetBufferID, psequenceNR] @ psize @ pdata
      in (u2, \<lparr>size_p = 0, data_p = d, framePos = 0\<rparr>))"

text \<open>
  \<^verbatim>\<open>func (u *udpPacketCreator) encodeAck(targetBufferID int, sequenceNR uint8)\<close>
\<close>

definition encodeAck ::
  "udpPacketCreator \<Rightarrow> int \<Rightarrow> byte \<Rightarrow> udpPacketCreator \<times> networkUDPPacket" where
  "encodeAck u tbID seqNR =
     (let pdataType = (1 :: byte);
          ptargetBufferID = (word_of_int (tbID + 128) :: byte);
          psequenceNR = seqNR;
          psize = [8, 0, 0, 0];
          pdata = seqNR;
          u1 = seqIncr u (uint ptargetBufferID);
          d = [pdataType, ptargetBufferID, psequenceNR] @ psize @ [pdata]
      in (u1, \<lparr>size_p = 0, data_p = d, framePos = 0\<rparr>))"

text \<open>
  Modelled from the spec: the types of the fields of \<^verbatim>\<open>Command\<close> are declared in a file
  of the repository that is not among the sources. The spec: project (u8), class (u8),
  command (u16, little-endian).
\<close>

record Command =
  Project :: byte
  Class :: byte
  Cmd :: "16 word"

text \<open>\<^verbatim>\<open>convertCMDToBytes\<close>: each field in declaration order, little-endian.\<close>

definition convertCMDToBytes :: "Command \<Rightarrow> byte list" where
  "convertCMDToBytes c = [Project c] @ [Class c] @ le16 (Cmd c)"

text \<open>
  \<^verbatim>\<open>func (u *udpPacketCreator) encodeCmd(c Command, argument Encoder) networkUDPPacket\<close>.
  The \<^verbatim>\<open>Encoder\<close>s are declared outside the sources: \<open>adata\<close> is what
  \<^verbatim>\<open>argument.Encode()\<close> returned.
\<close>

definition encodeCmd ::
  "udpPacketCreator \<Rightarrow> Command \<Rightarrow> byte list \<Rightarrow> udpPacketCreator \<times> networkUDPPacket" where
  "encodeCmd u c adata =
     (let buffer = (10 :: int);
          pdataType = (2 :: byte);
          ptargetBufferID = (word_of_int buffer :: byte);
          u1 = seqIncr u buffer;
          psequenceNR = seqRead u1 buffer;
          pdata = convertCMDToBytes c;
          headerSize = (7 :: 32 word);
          size = word_of_nat (length pdata) + word_of_nat (length adata) + headerSize;
          psize = le32 size;
          d = [pdataType, ptargetBufferID, psequenceNR] @ psize @ pdata @ adata
      in (u1, \<lparr>size_p = 0, data_p = d, framePos = 0\<rparr>))"

subsection \<open>The frame dispatcher\<close>

text \<open>
  The body of the inner loop of \<^verbatim>\<open>handleReadPackages\<close> for one decoded frame: the
  creator after it, the packets put on \<^verbatim>\<open>chSendingUDPPacket\<close>, and how the
  interpretation as a command went (\<open>Inr None\<close>: the frame was a ping and was not
  interpreted; \<open>Inl\<close>: the command decoder panicked).
\<close>

definition handleFrame ::
  "udpPacketCreator \<Rightarrow> protocolARNetworkAL \<Rightarrow>
   udpPacketCreator \<times> networkUDPPacket list \<times> (panic + protocolARCommands option)" where
  "handleFrame u frame =
     (if targetBufferID frame = 0 \<or> targetBufferID frame = 1
      then (let (u1, p) = encodePong u frame in (u1, [p], Inr None))
      else
        let (u1, out) =
              (if dataType frame = 4
               then (let (u', p) = encodeAck u (targetBufferID frame)
                                     (word_of_int (sequenceNR frame))
                     in (u', [p]))
               else (u, []))
        in case protocolARNetworkAL_decode frame of
             Inl e \<Rightarrow> (u1, out, Inl e)
           | Inr cmd \<Rightarrow> (u1, out, Inr (Some cmd)))"

text \<open>
  The loop of \<^verbatim>\<open>handleReadPackages\<close> over the frames of one received packet: decode a
  frame, handle it, stop after the last frame. The result is the creator, the packets
  sent in order, and the panic that ended the loop, if any.
\<close>

function handlePacket ::
  "udpPacketCreator \<Rightarrow> networkUDPPacket \<Rightarrow>
   udpPacketCreator \<times> networkUDPPacket list \<times> panic option" where
  "handlePacket u udpPacket =
     (case networkUDPPacket_decode udpPacket of
        Inl e \<Rightarrow> (u, [], Some e)
      | Inr (frame, udpPacket', lastFrame) \<Rightarrow>
          (case handleFrame u frame of
             (u1, out, Inl e) \<Rightarrow> (u1, out, Some e)
           | (u1, out, Inr cmd) \<Rightarrow>
               if lastFrame then (u1, out, None)
               else (let (u2, out2, r) = handlePacket u1 udpPacket' in (u2, out @ out2, r))))"
  by pat_completeness auto
termination
proof (relation "measure (\<lambda>(u, p). nat (size_p p - framePos p))")
  show "wf (measure (\<lambda>(u, p). nat (size_p p - framePos p)))"
    by simp
next
  fix u :: udpPacketCreator and udpPacket x2 frame y udpPacket' lastFrame x xa ya xb yb x2a
  assume dec: "networkUDPPacket_decode udpPacket = Inr x2"
    and x2: "(frame, y) = x2" "(udpPacket', lastFrame) = y"
    and notlast: "\<not> lastFrame"
  from dec x2 have d: "networkUDPPacket_decode udpPacket = Inr (frame, udpPacket', lastFrame)"
    by simp
  from d notlast
  have "size_p udpPacket' = size_p udpPacket \<and> framePos udpPacket < framePos udpPacket' \<and>
        framePos udpPacket' < size_p udpPacket"
    by (auto simp add: networkUDPPacket_decode_def slice_def Let_def
        split: sum.splits if_splits)
  then show "((xa, udpPacket'), (u, udpPacket)) \<in> measure (\<lambda>(u, p). nat (size_p p - framePos p))"
    by simp
qed

subsection \<open>Input actions\<close>

text \<open>\<^verbatim>\<open>type inputAction int\<close> and its constants.\<close>

datatype inputAction =
    ActionPcmdFlag | ActionPcmdRollLeft | ActionPcmdRollRight
  | ActionPcmdPitchForward | ActionPcmdPitchBackward
  | ActionPcmdYawClockwise | ActionPcmdYawCounterClockwise
  | ActionPcmdGazInc | ActionPcmdGazDec
  | ActionTakeoff | ActionLanding | ActionEmergency | ActionNavigateHome
  | ActionMoveBy | ActionUserTakeoff | ActionMoveTo | ActionCancelMoveTo
  | ActionStartPilotedPOI | ActionStopPilotedPOI | ActionCancelMoveBy
  | ActionHow | ActionFlatTrim

text \<open>
  Modelled from the spec: \<^verbatim>\<open>Ardrone3PilotingPCMDArguments\<close> is declared in a file of the
  repository that is not among the sources. The spec: a record {flag u8, roll i8,
  pitch i8, yaw i8, gaz i8, timestampSeq u32}. An \<^verbatim>\<open>int8\<close> is an \<open>8 word\<close> read by
  \<open>sint\<close>.
\<close>

record Ardrone3PilotingPCMDArguments =
  Flag :: byte
  Roll :: "8 word"
  Pitch :: "8 word"
  Yaw :: "8 word"
  Gaz :: "8 word"
  TimestampAndSeqNum :: "32 word"

text \<open>The fields of \<^verbatim>\<open>Drone\<close> that are plain data (the channels and sockets are left out).\<close>

record Drone =
  addressDrone :: string
  portDiscover :: string
  portC2D :: string
  portD2C :: string
  portRTPStream :: string
  portRTPControl :: string
  pcmd :: Ardrone3PilotingPCMDArguments

text \<open>\<^verbatim>\<open>NewDrone\<close>; the port \<^verbatim>\<open>portC2D\<close> is left at the zero value of a string.\<close>

definition NewDrone :: Drone where
  "NewDrone =
     \<lparr>addressDrone = ''192.168.42.1'', portDiscover = ''44444'', portC2D = [],
      portD2C = ''43210'', portRTPStream = ''55004'', portRTPControl = ''55005'',
      pcmd = \<lparr>Flag = 0, Roll = 0, Pitch = 0, Yaw = 0, Gaz = 0, TimestampAndSeqNum = 0\<rparr>\<rparr>"

text \<open>\<^verbatim>\<open>func (d *Drone) CheckLimitPcmdField(number int8) int8\<close>\<close>

definition CheckLimitPcmdField :: "8 word \<Rightarrow> 8 word" where
  "CheckLimitPcmdField number =
     (if 100 < sint number then 100
      else if sint number < - 100 then - 100
      else number)"

text \<open>
  The declarations of the command file that \<^verbatim>\<open>handleInputAction\<close> uses: the three
  \<^verbatim>\<open>Command\<close> values and what \<^verbatim>\<open>Encode()\<close> returns for their arguments. They are
  declared outside the sources and are a parameter of the model.
\<close>

record commandStructure =
  PilotingTakeOff :: Command
  PilotingLanding :: Command
  PilotingPCMD :: Command
  EncodeTakeOff :: "byte list"
  EncodeLanding :: "byte list"
  EncodePCMD :: "Ardrone3PilotingPCMDArguments \<Rightarrow> byte list"

text \<open>The channel a packet is put on.\<close>

datatype channelSend =
    chSendingUDPPacket networkUDPPacket
  | chPcmdPacketScheduler networkUDPPacket

text \<open>
  The body of the loop of \<^verbatim>\<open>handleInputAction\<close> for one action read from
  \<^verbatim>\<open>chInputActions\<close>: the creator and the drone after it, and the channel sends. The
  \<^verbatim>\<open>switch\<close> has four cases and no default.
\<close>

definition handleInputAction ::
  "commandStructure \<Rightarrow> udpPacketCreator \<times> Drone \<Rightarrow> inputAction \<Rightarrow>
   (udpPacketCreator \<times> Drone) \<times> channelSend list" where
  "handleInputAction cs st action =
     (let (packetCreator, d) = st in
      if action = ActionTakeoff then
        (let (u1, p) = encodeCmd packetCreator (PilotingTakeOff cs) (EncodeTakeOff cs)
         in ((u1, d), [chSendingUDPPacket p]))
      else if action = ActionLanding then
        (let (u1, p) = encodeCmd packetCreator (PilotingLanding cs) (EncodeLanding cs)
         in ((u1, d), [chSendingUDPPacket p]))
      else if action = ActionPcmdGazInc then
        (let g = CheckLimitPcmdField (Gaz (pcmd d) + 1);
             d1 = d\<lparr>pcmd := (pcmd d)\<lparr>Gaz := g\<rparr>\<rparr>;
             arg = \<lparr>Flag = 0, Roll = 0, Pitch = 0, Yaw = 0, Gaz = g, TimestampAndSeqNum = 0\<rparr>;
             (u1, p) = encodeCmd packetCreator (PilotingPCMD cs) (EncodePCMD cs arg)
         in ((u1, d1), [chPcmdPacketScheduler p]))
      else if action = ActionPcmdGazDec then
        (let g = CheckLimitPcmdField (Gaz (pcmd d) - 1);
             d1 = d\<lparr>pcmd := (pcmd d)\<lparr>Gaz := g\<rparr>\<rparr>;
             arg = \<lparr>Flag = 0, Roll = 0, Pitch = 0, Yaw = 0, Gaz = g, TimestampAndSeqNum = 0\<rparr>;
             (u1, p) = encodeCmd packetCreator (PilotingPCMD cs) (EncodePCMD cs arg)
         in ((u1, d1), [chPcmdPacketScheduler p]))
      else ((packetCreator, d), []))"

text \<open>A run of encodeCmd operations on one creator: the packets in the order created.\<close>

fun encodeCmds ::
  "udpPacketCreator \<Rightarrow> (Command \<times> byte list) list \<Rightarrow> udpPacketCreator \<times> networkUDPPacket list" where
  "encodeCmds u [] = (u, [])"
| "encodeCmds u ((c, adata) # cs) =
     (let (u1, p) = encodeCmd u c adata; (u2, ps) = encodeCmds u1 cs in (u2, p # ps))"

text \<open>The sequence-number field of a frame: its third byte.\<close>

definition sequenceField :: "networkUDPPacket \<Rightarrow> byte" where
  "sequenceField p = data_p p ! 2"

text \<open>The u32 size field, little-endian, of the frame at the cursor of a packet.\<close>

definition frameSizeField :: "networkUDPPacket \<Rightarrow> int" where
  "frameSizeField packet =
     int (ConvLittleEndianSliceToNumeric
            (take 4 (drop (nat (framePos packet + 3)) (data_p packet))))"

subsection \<open>The PCMD scheduler\<close>

text \<open>
  \<^verbatim>\<open>chPcmdPacketScheduler: make(chan networkUDPPacket, 100)\<close>: a channel with a buffer
  is a queue of at most 100 packets. The state of the scheduler is that queue and the
  packets it has forwarded to \<^verbatim>\<open>chSendingUDPPacket\<close>, oldest first.
\<close>

record schedulerState =
  pcmdQueue :: "networkUDPPacket list"
  forwarded :: "networkUDPPacket list"

definition pcmdQueueCap :: nat where
  "pcmdQueueCap = 100"

text \<open>
  What happens around \<^verbatim>\<open>PcmdPacketScheduler\<close>: a producer sends a packet on the channel,
  or \<^verbatim>\<open>time.After(50ms)\<close> fires in the scheduler's loop.
\<close>

datatype schedulerEvent = PcmdSent networkUDPPacket | TickFired

text \<open>
  One event. A send on a full channel blocks: the event cannot happen in that state
  (\<open>None\<close>). On a tick the inner \<^verbatim>\<open>select\<close> receives the head of the queue and forwards
  it, or takes the \<^verbatim>\<open>default\<close> branch when the queue is empty.
\<close>

definition schedulerStep :: "schedulerState \<Rightarrow> schedulerEvent \<Rightarrow> schedulerState option" where
  "schedulerStep s ev =
     (case ev of
        PcmdSent p \<Rightarrow>
          if length (pcmdQueue s) < pcmdQueueCap
          then Some (s\<lparr>pcmdQueue := pcmdQueue s @ [p]\<rparr>)
          else None
      | TickFired \<Rightarrow>
          (case pcmdQueue s of
             [] \<Rightarrow> Some s
           | p # ps \<Rightarrow> Some (s\<lparr>pcmdQueue := ps, forwarded := forwarded s @ [p]\<rparr>)))"

fun schedulerRun :: "schedulerState \<Rightarrow> schedulerEvent list \<Rightarrow> schedulerState option" where
  "schedulerRun s [] = Some s"
| "schedulerRun s (ev # evs) =
     (case schedulerStep s ev of None \<Rightarrow> None | Some s1 \<Rightarrow> schedulerRun s1 evs)"

text \<open>The packets sent to the scheduler and the number of ticks in a run of events.\<close>

fun sentPackets :: "schedulerEvent list \<Rightarrow> networkUDPPacket list" where
  "sentPackets [] = []"
| "sentPackets (PcmdSent p # evs) = p # sentPackets evs"
| "sentPackets (TickFired # evs) = sentPackets evs"

fun ticks :: "schedulerEvent list \<Rightarrow> nat" where
  "ticks [] = 0"
| "ticks (PcmdSent p # evs) = ticks evs"
| "ticks (TickFired # evs) = Suc (ticks evs)"

subsection \<open>Discovery\<close>

text \<open>An error value of the \<^verbatim>\<open>net\<close> package.\<close>

datatype net_error = DialFailed | ReadFailed | WriteFailed

text \<open>The anonymous struct \<^verbatim>\<open>discoverData\<close> of \<^verbatim>\<open>Discover\<close>.\<close>

record discoverData =
  Status :: int
  C2dPort :: int
  C2dUpdate :: int
  C2dUserPort :: int
  QosMode :: int
  Arstream2ServerStreamPort :: int
  Arstream2ServerControlPort :: int

definition discoverDataZero :: discoverData where
  "discoverDataZero =
     \<lparr>Status = 0, C2dPort = 0, C2dUpdate = 0, C2dUserPort = 0, QosMode = 0,
      Arstream2ServerStreamPort = 0, Arstream2ServerControlPort = 0\<rparr>"

text \<open>
  What the outside world does in one call of \<^verbatim>\<open>Discover\<close>: the error of \<^verbatim>\<open>nd.Dial\<close>,
  the error of \<^verbatim>\<open>discoverConn.Write\<close>, the error of \<^verbatim>\<open>discoverConn.Read\<close> or the bytes
  it stored, and \<^verbatim>\<open>json.Unmarshal\<close> (of the standard library) as a function from the
  bytes and the struct to whether it returned an error and the struct afterwards.
\<close>

record discoverEnv =
  dialResult :: "net_error option"
  writeResult :: "net_error option"
  readResult :: "net_error + byte list"
  jsonUnmarshal :: "byte list \<Rightarrow> discoverData \<Rightarrow> bool \<times> discoverData"

text \<open>How a call ends: it returns, or \<^verbatim>\<open>log.Fatal\<close> ends the process.\<close>

datatype 'a outcome = Returned 'a | ProcessExit

text \<open>\<^verbatim>\<open>bytes.Trim(data, "\x00")\<close>: the zero bytes at both ends are cut.\<close>

definition trimZero :: "byte list \<Rightarrow> byte list" where
  "trimZero bs = rev (dropWhile (\<lambda>b. b = 0) (rev (dropWhile (\<lambda>b. b = 0) bs)))"

text \<open>\<^verbatim>\<open>strconv.Itoa\<close>\<close>

function digits :: "nat \<Rightarrow> string" where
  "digits n =
     (if n < 10 then [''0123456789'' ! n]
      else digits (n div 10) @ [''0123456789'' ! (n mod 10)])"
  by pat_completeness auto
termination
  by (relation "measure (\<lambda>n. n)") auto

definition Itoa :: "int \<Rightarrow> string" where
  "Itoa i = (if i < 0 then CHR ''-'' # digits (nat (- i)) else digits (nat i))"

text \<open>
  \<^verbatim>\<open>func (d *Drone) Discover() error\<close>: the drone after the call and the error returned,
  or the end of the process. \<^verbatim>\<open>data\<close> is 1024 zero bytes into which \<^verbatim>\<open>Read\<close> stores
  what it received.
\<close>

definition Discover :: "discoverEnv \<Rightarrow> Drone \<Rightarrow> (Drone \<times> net_error option) outcome" where
  "Discover env d =
     (case dialResult env of
        Some err \<Rightarrow> Returned (d, Some err)
      | None \<Rightarrow>
          (case readResult env of
             Inl err \<Rightarrow> Returned (d, Some err)
           | Inr received \<Rightarrow>
               let data = take 1024 received @ replicate (1024 - length received) 0;
                   data1 = trimZero data;
                   (failed, dd) = jsonUnmarshal env data1 discoverDataZero
               in if Status dd \<noteq> 0 then ProcessExit
                  else Returned (d\<lparr>portC2D := Itoa (C2dPort dd)\<rparr>, None)))"

text \<open>The struct as \<^verbatim>\<open>json.Unmarshal\<close> left it, for the bytes that \<^verbatim>\<open>Read\<close> stored.\<close>

definition discoverParsed :: "discoverEnv \<Rightarrow> byte list \<Rightarrow> discoverData" where
  "discoverParsed env received =
     snd (jsonUnmarshal env
            (trimZero (take 1024 received @ replicate (1024 - length received) 0))
            discoverDataZero)"

text \<open>
  Two discovery responses, as ASCII bytes: the JSON object whose only member is status
  with value 1, and the JSON object with the members status = 0 and c2d_port = 54321.
\<close>

definition responseStatus1 :: "byte list" where
  "responseStatus1 =
     [0x7B, 0x22, 0x73, 0x74, 0x61, 0x74, 0x75, 0x73, 0x22, 0x3A, 0x31, 0x7D]"

definition responseStatus0 :: "byte list" where
  "responseStatus0 =
     [0x7B, 0x22, 0x73, 0x74, 0x61, 0x74, 0x75, 0x73, 0x22, 0x3A, 0x30, 0x2C,
      0x22, 0x63, 0x32, 0x64, 0x5F, 0x70, 0x6F, 0x72, 0x74, 0x22, 0x3A,
      0x35, 0x34, 0x33, 0x32, 0x31, 0x7D]"

text \<open>
  \<^verbatim>\<open>json.Unmarshal\<close> on the inputs of the examples: the two responses above set the
  fields they name and give no error; the empty input is a syntax error and leaves the
  struct as it was. No other input is used.
\<close>

definition jsonUnmarshalFixture :: "byte list \<Rightarrow> discoverData \<Rightarrow> bool \<times> discoverData" where
  "jsonUnmarshalFixture bs dd =
     (if bs = responseStatus1 then (False, dd\<lparr>Status := 1\<rparr>)
      else if bs = responseStatus0 then (False, dd\<lparr>Status := 0, C2dPort := 54321\<rparr>)
      else (True, dd))"

section \<open>Waypoint buffer (drone.go)\<close>

text \<open>
  Go's \<^verbatim>\<open>float64\<close>: the finite values (over-approximated by the reals), the two
  infinities and NaN. Only the comparisons \<^verbatim>\<open>></\<close> and \<^verbatim>\<open><\<close> against constants are
  used by the code modelled here; a comparison with NaN is false.
\<close>

datatype float64 = Finite real | PosInf | NegInf | NaN

fun f_gt :: "float64 \<Rightarrow> float64 \<Rightarrow> bool" where
  "f_gt NaN y = False"
| "f_gt x NaN = False"
| "f_gt PosInf PosInf = False"
| "f_gt PosInf y = True"
| "f_gt x PosInf = False"
| "f_gt NegInf y = False"
| "f_gt (Finite a) NegInf = True"
| "f_gt (Finite a) (Finite b) = (b < a)"

definition f_lt :: "float64 \<Rightarrow> float64 \<Rightarrow> bool" where
  "f_lt x y = f_gt y x"

text \<open>\<^verbatim>\<open>type gpsLatLonAlt struct\<close>\<close>

record gpsLatLonAlt =
  latitude :: float64
  longitude :: float64
  altitude :: float64

text \<open>
  \<^verbatim>\<open>type moveToBuffer struct\<close>. The two channels of the struct carry the waypoints in
  and out; the buffer's state is the slice.
\<close>

record moveToBuffer =
  waypoints :: "gpsLatLonAlt list"

text \<open>The error value \<^verbatim>\<open>io.EOF\<close>.\<close>

datatype io_error = EOF

text \<open>\<^verbatim>\<open>s.waypoints = append(s.waypoints, d)\<close>\<close>

definition pushWayPointNew :: "moveToBuffer \<Rightarrow> gpsLatLonAlt \<Rightarrow> moveToBuffer" where
  "pushWayPointNew s d = s\<lparr>waypoints := waypoints s @ [d]\<rparr>"

text \<open>
  \<^verbatim>\<open>pullWayPointNext\<close>: on an empty slice it returns \<^verbatim>\<open>gpsLatLonAlt{}, io.EOF\<close>;
  otherwise \<^verbatim>\<open>v := s.waypoints[0]\<close> and
  \<^verbatim>\<open>s.waypoints = append(s.waypoints[0:0], s.waypoints[1:]...)\<close>. The two arguments of
  \<^verbatim>\<open>append\<close> share their array; \<^verbatim>\<open>append\<close> copies as if through a temporary, so the
  result is the elements of the second argument.
\<close>

definition pullWayPointNext :: "moveToBuffer \<Rightarrow> moveToBuffer \<times> (io_error + gpsLatLonAlt)" where
  "pullWayPointNext s =
     (if length (waypoints s) = 0 then (s, Inl EOF)
      else let v = waypoints s ! 0
           in (s\<lparr>waypoints := take 0 (waypoints s) @ drop 1 (waypoints s)\<rparr>, Inr v))"

text \<open>
  One iteration of the loop of \<^verbatim>\<open>startWayPointReceiver\<close>, for the waypoint \<open>wp\<close> read
  from \<^verbatim>\<open>chNewWayPointIn\<close>: the two cases of the \<^verbatim>\<open>switch\<close> log and \<^verbatim>\<open>continue\<close>,
  every other waypoint is pushed.
\<close>

definition receiveWayPoint :: "moveToBuffer \<Rightarrow> gpsLatLonAlt \<Rightarrow> moveToBuffer" where
  "receiveWayPoint s wp =
     (if f_gt (latitude wp) (Finite 91) \<or> f_lt (latitude wp) (Finite (- 91)) then s
      else if f_gt (longitude wp) (Finite 181) \<or> f_lt (longitude wp) (Finite (- 181)) then s
      else pushWayPointNew s wp)"

text \<open>The loop of \<^verbatim>\<open>startWayPointReceiver\<close> over the waypoints the channel delivers.\<close>

fun startWayPointReceiver :: "moveToBuffer \<Rightarrow> gpsLatLonAlt list \<Rightarrow> moveToBuffer" where
  "startWayPointReceiver s [] = s"
| "startWayPointReceiver s (wp # wps) = startWayPointReceiver (receiveWayPoint s wp) wps"

text \<open>
  Drivers for stating the queue discipline: push a list of waypoints in order, and pull
  \<open>n\<close> times collecting what each pull returned.
\<close>

fun pushAll :: "moveToBuffer \<Rightarrow> gpsLatLonAlt list \<Rightarrow> moveToBuffer" where
  "pushAll s [] = s"
| "pushAll s (d # ds) = pushAll (pushWayPointNew s d) ds"

fun pullMany :: "nat \<Rightarrow> moveToBuffer \<Rightarrow> moveToBuffer \<times> (io_error + gpsLatLonAlt) list" where
  "pullMany 0 s = (s, [])"
| "pullMany (Suc n) s =
     (let (s1, r) = pullWayPointNext s; (s2, rs) = pullMany n s1 in (s2, r # rs))"

text \<open>The waypoints accepted by the two range checks of the receiver.\<close>

definition wayPointAccepted :: "gpsLatLonAlt \<Rightarrow> bool" where
  "wayPointAccepted wp =
     (\<not> (f_gt (latitude wp) (Finite 91) \<or> f_lt (latitude wp) (Finite (- 91))) \<and>
      \<not> (f_gt (longitude wp) (Finite 181) \<or> f_lt (longitude wp) (Finite (- 181))))"

section \<open>Properties of the waypoint buffer\<close>

lemma waypoints_pushAll: "waypoints (pushAll s ds) = waypoints s @ ds"
  by (induction ds arbitrary: s) (simp_all add: pushWayPointNew_def)

lemma pushAll_eq: "pushAll s ds = s\<lparr>waypoints := waypoints s @ ds\<rparr>"
  by (induction ds arbitrary: s) (simp_all add: pushWayPointNew_def)

lemma pullWayPointNext_Cons:
  "waypoints s = w # ws \<Longrightarrow> pullWayPointNext s = (s\<lparr>waypoints := ws\<rparr>, Inr w)"
  by (simp add: pullWayPointNext_def)

lemma pullWayPointNext_Nil:
  "waypoints s = [] \<Longrightarrow> pullWayPointNext s = (s, Inl EOF)"
  by (simp add: pullWayPointNext_def)

lemma pullMany_all:
  "waypoints s = ws \<Longrightarrow> pullMany (length ws) s = (s\<lparr>waypoints := []\<rparr>, map Inr ws)"
proof (induction ws arbitrary: s)
  case Nil
  then show ?case by simp
next
  case (Cons w ws)
  have step: "pullWayPointNext s = (s\<lparr>waypoints := ws\<rparr>, Inr w)"
    using Cons.prems by (rule pullWayPointNext_Cons)
  have rest: "pullMany (length ws) (s\<lparr>waypoints := ws\<rparr>) = (s\<lparr>waypoints := []\<rparr>, map Inr ws)"
    using Cons.IH [of "s\<lparr>waypoints := ws\<rparr>"] by simp
  show ?case by (simp add: step rest)
qed

text \<open>
  C9. The waypoint buffer is a FIFO queue. \<open>pushWayPointNew\<close> appends the waypoint at the
  tail. \<open>pullWayPointNext\<close> on a buffer holding \<open>w # ws\<close> returns \<open>w\<close>, the oldest
  waypoint, and leaves exactly \<open>ws\<close>, in the same order; on an empty buffer it returns the
  error \<^verbatim>\<open>io.EOF\<close> and leaves the buffer as it was. Hence waypoints pushed in some order
  onto an empty buffer are pulled in that order.
\<close>

theorem waypoint_buffer_fifo:
  "waypoints (pushWayPointNew s d) = waypoints s @ [d] \<and>
   pullWayPointNext s =
     (case waypoints s of
        [] \<Rightarrow> (s, Inl EOF)
      | w # ws \<Rightarrow> (s\<lparr>waypoints := ws\<rparr>, Inr w)) \<and>
   pullMany (length ds) (pushAll (s\<lparr>waypoints := []\<rparr>) ds) = (s\<lparr>waypoints := []\<rparr>, map Inr ds)"
proof -
  have push: "waypoints (pushWayPointNew s d) = waypoints s @ [d]"
    by (simp add: pushWayPointNew_def)
  have pull: "pullWayPointNext s =
     (case waypoints s of [] \<Rightarrow> (s, Inl EOF) | w # ws \<Rightarrow> (s\<lparr>waypoints := ws\<rparr>, Inr w))"
    by (cases "waypoints s") (simp_all add: pullWayPointNext_Nil pullWayPointNext_Cons)
  have "waypoints (pushAll (s\<lparr>waypoints := []\<rparr>) ds) = ds"
    by (simp add: waypoints_pushAll)
  from pullMany_all [OF this]
  have fifo: "pullMany (length ds) (pushAll (s\<lparr>waypoints := []\<rparr>) ds)
      = (s\<lparr>waypoints := []\<rparr>, map Inr ds)"
    by (simp add: pushAll_eq)
  from push pull fifo show ?thesis by simp
qed

lemma receiveWayPoint_accepted:
  "receiveWayPoint s wp = (if wayPointAccepted wp then s\<lparr>waypoints := waypoints s @ [wp]\<rparr> else s)"
  by (simp add: receiveWayPoint_def wayPointAccepted_def pushWayPointNew_def)

lemma startWayPointReceiver_filter:
  "startWayPointReceiver s wps = s\<lparr>waypoints := waypoints s @ filter wayPointAccepted wps\<rparr>"
  by (induction wps arbitrary: s) (simp_all add: receiveWayPoint_accepted)

text \<open>
  C6, against the claim: the waypoint with latitude 0, longitude 0 and altitude 500 holds
  the sentinel 500 in its altitude, and the waypoint with latitude 91 and longitude 181
  lies outside the open intervals (-91, 91) and (-181, 181); the receiver appends both.
\<close>

theorem waypoint_sentinel_accepted:
  "altitude \<lparr>latitude = Finite 0, longitude = Finite 0, altitude = Finite 500\<rparr> = Finite 500 \<and>
   waypoints (receiveWayPoint \<lparr>waypoints = []\<rparr>
       \<lparr>latitude = Finite 0, longitude = Finite 0, altitude = Finite 500\<rparr>)
     = [\<lparr>latitude = Finite 0, longitude = Finite 0, altitude = Finite 500\<rparr>] \<and>
   waypoints (receiveWayPoint \<lparr>waypoints = []\<rparr>
       \<lparr>latitude = Finite 91, longitude = Finite 181, altitude = Finite 10\<rparr>)
     = [\<lparr>latitude = Finite 91, longitude = Finite 181, altitude = Finite 10\<rparr>]"
  by (simp add: receiveWayPoint_def pushWayPointNew_def f_lt_def)

text \<open>
  C6, as the code has it: the receiver looks at latitude and longitude only. A waypoint
  with finite latitude \<open>la\<close> and longitude \<open>lo\<close> is appended at the tail of the buffer
  exactly when \<open>-91 \<le> la \<le> 91\<close> and \<open>-181 \<le> lo \<le> 181\<close>, whatever its altitude, and is
  dropped with the buffer unchanged otherwise; over a run of the receiver the buffer grows
  by the accepted waypoints, in arrival order.
\<close>

theorem waypoint_ingest_bounds:
  "receiveWayPoint s \<lparr>latitude = Finite la, longitude = Finite lo, altitude = al\<rparr> =
     (if - 91 \<le> la \<and> la \<le> 91 \<and> - 181 \<le> lo \<and> lo \<le> 181
      then s\<lparr>waypoints := waypoints s @ [\<lparr>latitude = Finite la, longitude = Finite lo, altitude = al\<rparr>]\<rparr>
      else s) \<and>
   startWayPointReceiver s wps = s\<lparr>waypoints := waypoints s @ filter wayPointAccepted wps\<rparr>"
proof -
  have one: "receiveWayPoint s \<lparr>latitude = Finite la, longitude = Finite lo, altitude = al\<rparr> =
     (if - 91 \<le> la \<and> la \<le> 91 \<and> - 181 \<le> lo \<and> lo \<le> 181
      then s\<lparr>waypoints := waypoints s @ [\<lparr>latitude = Finite la, longitude = Finite lo, altitude = al\<rparr>]\<rparr>
      else s)"
    by (auto simp add: receiveWayPoint_def pushWayPointNew_def f_lt_def)
  show ?thesis using one startWayPointReceiver_filter by simp
qed

section \<open>Properties of the packet creator\<close>

lemma seqRead_new: "seqRead newUdpPacketCreator k = 0"
  by (simp add: seqRead_def newUdpPacketCreator_def)

lemma seqRead_seqIncr:
  "seqRead (seqIncr u k) k' = (if k' = k then seqRead u k + 1 else seqRead u k')"
  by (simp add: seqRead_def seqIncr_def)

lemma sequenceNRs_seqIncr_other:
  "k' \<noteq> k \<Longrightarrow> sequenceNRs (seqIncr u k) k' = sequenceNRs u k'"
  by (simp add: seqIncr_def)

lemma uint_byte_mod: "uint (word_of_int i :: byte) = i mod 256"
  by (simp add: uint_word_of_int)

lemma uint_byte_of_int: "0 \<le> i \<Longrightarrow> i < 256 \<Longrightarrow> uint (word_of_int i :: byte) = i"
  by (simp add: uint_word_of_int)

lemma encodeCmd_fst: "fst (encodeCmd u c adata) = seqIncr u 10"
  by (simp add: encodeCmd_def Let_def)

lemma encodeCmd_data:
  "data_p (snd (encodeCmd u c adata)) =
     [2, 10, seqRead u 10 + 1]
     @ le32 (word_of_nat (length (convertCMDToBytes c)) + word_of_nat (length adata) + 7)
     @ convertCMDToBytes c @ adata"
  by (simp add: encodeCmd_def Let_def seqRead_seqIncr)

lemma encodeAck_fst:
  "fst (encodeAck u tb s) = seqIncr u (uint (word_of_int (tb + 128) :: byte))"
  by (simp add: encodeAck_def Let_def)

lemma encodeAck_data:
  "data_p (snd (encodeAck u tb s)) = [1, word_of_int (tb + 128), s, 8, 0, 0, 0, s]"
  by (simp add: encodeAck_def Let_def)

lemma encodePong_fst:
  "fst (encodePong u f) =
     seqIncr (seqIncr u (targetBufferID f)) (uint (word_of_int (targetBufferID f) :: byte))"
  by (simp add: encodePong_def Let_def)

lemma encodePong_data:
  "data_p (snd (encodePong u f)) =
     [2, word_of_int (targetBufferID f),
      seqRead (seqIncr u (targetBufferID f)) (uint (word_of_int (targetBufferID f) :: byte)),
      8, 0, 0, 0] @ dataARNetwork f"
  by (simp add: encodePong_def Let_def)

text \<open>
  On a frame whose buffer id is a byte, \<open>encodePong\<close> puts the counter plus one into the
  frame and leaves the counter two higher.
\<close>

lemma encodePong_counter:
  assumes "0 \<le> targetBufferID f" and "targetBufferID f < 256"
  shows "sequenceField (snd (encodePong u f)) = seqRead u (targetBufferID f) + 1"
    and "seqRead (fst (encodePong u f)) (targetBufferID f) = seqRead u (targetBufferID f) + 2"
proof -
  have key: "uint (word_of_int (targetBufferID f) :: byte) = targetBufferID f"
    using assms by (rule uint_byte_of_int)
  show "sequenceField (snd (encodePong u f)) = seqRead u (targetBufferID f) + 1"
    by (simp add: sequenceField_def encodePong_data key seqRead_seqIncr)
  show "seqRead (fst (encodePong u f)) (targetBufferID f) = seqRead u (targetBufferID f) + 2"
    by (simp add: encodePong_fst key seqRead_seqIncr)
qed

text \<open>
  C10, against the claim: a frame of data type 4 on buffer 138, received by a fresh
  creator. The dispatcher acks it with \<open>encodeAck\<close>; 128 plus the acked buffer is 266, and
  the byte \<^verbatim>\<open>uint8(138 + 128)\<close> is 10. The ack goes out on buffer 10 and the counter of
  buffer 10, the buffer of the commands, is incremented; no counter of a buffer 266
  exists afterwards.
\<close>

theorem ack_of_buffer_138_uses_counter_10:
  "snd (handlePacket newUdpPacketCreator
      \<lparr>size_p = 11, data_p = [0x04, 0x8A, 0x05, 0x0B, 0, 0, 0, 0x01, 0x00, 0x01, 0x00], framePos = 0\<rparr>)
   = ([\<lparr>size_p = 0, data_p = [0x01, 0x0A, 0x05, 0x08, 0, 0, 0, 0x05], framePos = 0\<rparr>], None) \<and>
   sequenceNRs newUdpPacketCreator 10 = None \<and>
   sequenceNRs (fst (handlePacket newUdpPacketCreator
      \<lparr>size_p = 11, data_p = [0x04, 0x8A, 0x05, 0x0B, 0, 0, 0, 0x01, 0x00, 0x01, 0x00], framePos = 0\<rparr>))
     10 = Some 1 \<and>
   sequenceNRs (fst (handlePacket newUdpPacketCreator
      \<lparr>size_p = 11, data_p = [0x04, 0x8A, 0x05, 0x0B, 0, 0, 0, 0x01, 0x00, 0x01, 0x00], framePos = 0\<rparr>))
     (128 + 138) = None"
  by (simp add: networkUDPPacket_decode_def index_def slice_def handleFrame_def encodeAck_def
      protocolARNetworkAL_decode_def seqIncr_def seqRead_def newUdpPacketCreator_def Let_def)

text \<open>
  C10, as the code has it. A packet-creation operation changes the counter of no buffer
  but the one it emits on, the buffer named by the second byte of the frame it returns:
  buffer 10 for \<open>encodeCmd\<close>; 128 plus the acked buffer modulo 256 for \<open>encodeAck\<close>, which
  is \<open>128 + b\<close> for an acked buffer \<open>b < 128\<close> and \<open>b - 128\<close> for an acked buffer
  \<open>128 \<le> b < 256\<close>; the buffer of the ping for \<open>encodePong\<close>, on a frame whose buffer id
  is a byte, as every decoded frame's is. The creator holds no state but the counters.
\<close>

theorem packet_creation_frame:
  assumes "0 \<le> targetBufferID f" and "targetBufferID f < 256"
  shows
   "data_p (snd (encodeCmd u c adata)) ! 1 = 10 \<and>
    (k \<noteq> 10 \<longrightarrow> sequenceNRs (fst (encodeCmd u c adata)) k = sequenceNRs u k) \<and>
    uint (data_p (snd (encodeAck u tb s)) ! 1) = (tb + 128) mod 256 \<and>
    (0 \<le> tb \<and> tb < 128 \<longrightarrow> uint (data_p (snd (encodeAck u tb s)) ! 1) = tb + 128) \<and>
    (128 \<le> tb \<and> tb < 256 \<longrightarrow> uint (data_p (snd (encodeAck u tb s)) ! 1) = tb - 128) \<and>
    (k \<noteq> (tb + 128) mod 256 \<longrightarrow> sequenceNRs (fst (encodeAck u tb s)) k = sequenceNRs u k) \<and>
    uint (data_p (snd (encodePong u f)) ! 1) = targetBufferID f \<and>
    (k \<noteq> targetBufferID f \<longrightarrow> sequenceNRs (fst (encodePong u f)) k = sequenceNRs u k)"
proof -
  have cmd1: "data_p (snd (encodeCmd u c adata)) ! 1 = 10"
    by (simp add: encodeCmd_data)
  have cmd2: "k \<noteq> 10 \<longrightarrow> sequenceNRs (fst (encodeCmd u c adata)) k = sequenceNRs u k"
    by (simp add: encodeCmd_fst sequenceNRs_seqIncr_other)
  have "data_p (snd (encodeAck u tb s)) ! 1 = (word_of_int (tb + 128) :: byte)"
    by (simp add: encodeAck_data)
  then have ack1: "uint (data_p (snd (encodeAck u tb s)) ! 1) = (tb + 128) mod 256"
    by (simp only: uint_byte_mod)
  have ack1': "0 \<le> tb \<and> tb < 128 \<longrightarrow> uint (data_p (snd (encodeAck u tb s)) ! 1) = tb + 128"
    using ack1 by simp
  have ack1'': "128 \<le> tb \<and> tb < 256 \<longrightarrow>
      uint (data_p (snd (encodeAck u tb s)) ! 1) = tb - 128"
  proof
    assume r: "128 \<le> tb \<and> tb < 256"
    then have "(tb + 128) mod 256 = tb - 128"
      by (simp add: mod_pos_geq)
    with ack1 show "uint (data_p (snd (encodeAck u tb s)) ! 1) = tb - 128" by simp
  qed
  have ack2: "k \<noteq> (tb + 128) mod 256 \<longrightarrow>
      sequenceNRs (fst (encodeAck u tb s)) k = sequenceNRs u k"
    by (simp only: encodeAck_fst uint_byte_mod) (simp add: sequenceNRs_seqIncr_other)
  have key: "uint (word_of_int (targetBufferID f) :: byte) = targetBufferID f"
    using assms by (rule uint_byte_of_int)
  have pong1: "uint (data_p (snd (encodePong u f)) ! 1) = targetBufferID f"
    by (simp add: encodePong_data key)
  have pong2: "k \<noteq> targetBufferID f \<longrightarrow>
      sequenceNRs (fst (encodePong u f)) k = sequenceNRs u k"
    by (simp add: encodePong_fst key sequenceNRs_seqIncr_other)
  from cmd1 cmd2 ack1 ack1' ack1'' ack2 pong1 pong2 show ?thesis by simp
qed

theorem packet_creation_frame_witness:
  "data_p (snd (encodeCmd newUdpPacketCreator \<lparr>Project = 1, Class = 0, Cmd = 1\<rparr> [])) ! 1 = 10 \<and>
   sequenceNRs (fst (encodeCmd newUdpPacketCreator \<lparr>Project = 1, Class = 0, Cmd = 1\<rparr> [])) 11
     = sequenceNRs newUdpPacketCreator 11 \<and>
   uint (data_p (snd (encodeAck newUdpPacketCreator 11 0x42)) ! 1) = 139 \<and>
   sequenceNRs (fst (encodeAck newUdpPacketCreator 11 0x42)) 11 = sequenceNRs newUdpPacketCreator 11 \<and>
   uint (data_p (snd (encodePong newUdpPacketCreator
       \<lparr>dataType = 2, targetBufferID = 1, sequenceNR = 0x7B, size_f = 8,
        dataARNetwork = [0xAA]\<rparr>)) ! 1) = 1 \<and>
   sequenceNRs (fst (encodePong newUdpPacketCreator
       \<lparr>dataType = 2, targetBufferID = 1, sequenceNR = 0x7B, size_f = 8,
        dataARNetwork = [0xAA]\<rparr>)) 11 = sequenceNRs newUdpPacketCreator 11"
  using packet_creation_frame
    [where f = "\<lparr>dataType = 2, targetBufferID = 1, sequenceNR = 0x7B, size_f = 8,
                  dataARNetwork = [0xAA]\<rparr>"
       and u = newUdpPacketCreator and c = "\<lparr>Project = 1, Class = 0, Cmd = 1\<rparr>"
       and adata = "[]" and tb = 11 and s = "0x42" and k = 11]
  by simp

lemma encodeCmd_sequenceField: "sequenceField (snd (encodeCmd u c adata)) = seqRead u 10 + 1"
  by (simp add: sequenceField_def encodeCmd_data)

lemma encodeCmd_counter: "seqRead (fst (encodeCmd u c adata)) 10 = seqRead u 10 + 1"
  by (simp add: encodeCmd_fst seqRead_seqIncr)

lemma encodeCmds_sequenceFields:
  "map sequenceField (snd (encodeCmds u cs)) =
     map (\<lambda>k. seqRead u 10 + 1 + word_of_nat k) [0..<length cs]"
proof (induction cs arbitrary: u)
  case Nil
  then show ?case by simp
next
  case (Cons a cs)
  obtain c adata where a: "a = (c, adata)" by (cases a)
  have up: "[0..<Suc (length cs)] = 0 # map Suc [0..<length cs]"
    by (simp add: upt_conv_Cons map_Suc_upt del: upt_Suc)
  show ?case
    unfolding a
    by (simp add: split_beta Let_def Cons.IH encodeCmd_sequenceField encodeCmd_counter up
        del: upt_Suc)
qed

lemma encodeCmds_counter:
  "seqRead (fst (encodeCmds u cs)) 10 = seqRead u 10 + word_of_nat (length cs)"
proof (induction cs arbitrary: u)
  case Nil
  then show ?case by simp
next
  case (Cons a cs)
  obtain c adata where a: "a = (c, adata)" by (cases a)
  show ?case
    unfolding a by (simp add: split_beta Let_def Cons.IH encodeCmd_counter)
qed

text \<open>
  C3, against the claim: the first two commands encoded by a fresh creator carry the
  sequence numbers 1 and 2, not 0 and 1; and two pongs on buffer 0 from a fresh creator
  carry 1 and 3, the counter moving by two for each.
\<close>

theorem encodeCmd_first_sequence_is_1:
  "map sequenceField (snd (encodeCmds newUdpPacketCreator
       [(\<lparr>Project = 1, Class = 0, Cmd = 1\<rparr>, []), (\<lparr>Project = 1, Class = 0, Cmd = 3\<rparr>, [])]))
   = [1, 2] \<and>
   sequenceField (snd (encodePong newUdpPacketCreator
       \<lparr>dataType = 2, targetBufferID = 0, sequenceNR = 0x7B, size_f = 8,
        dataARNetwork = [0xAA]\<rparr>)) = 1 \<and>
   sequenceField (snd (encodePong
       (fst (encodePong newUdpPacketCreator
          \<lparr>dataType = 2, targetBufferID = 0, sequenceNR = 0x7B, size_f = 8,
           dataARNetwork = [0xAA]\<rparr>))
       \<lparr>dataType = 2, targetBufferID = 0, sequenceNR = 0x7C, size_f = 8,
        dataARNetwork = [0xAB]\<rparr>)) = 3"
  by (simp add: sequenceField_def encodeCmd_def encodePong_def convertCMDToBytes_def
      le32_def le16_def seqIncr_def seqRead_def newUdpPacketCreator_def Let_def)

text \<open>
  C3, as the code has it: \<open>encodeCmd\<close> first increments the counter of buffer 10 by exactly
  one, wrapping at 256, and then puts the new value into the frame. So the \<open>N\<close> commands
  encoded by a fresh creator carry the sequence numbers 1, 2, ..., N modulo 256, and the
  counter ends at N modulo 256.
\<close>

theorem encodeCmd_sequence_numbers:
  "map (\<lambda>p. unat (sequenceField p)) (snd (encodeCmds newUdpPacketCreator cs)) =
     map (\<lambda>k. (k + 1) mod 256) [0..<length cs] \<and>
   unat (seqRead (fst (encodeCmds newUdpPacketCreator cs)) 10) = length cs mod 256 \<and>
   sequenceField (snd (encodeCmd u c adata)) = seqRead u 10 + 1 \<and>
   seqRead (fst (encodeCmd u c adata)) 10 = seqRead u 10 + 1"
proof -
  have "map (\<lambda>p. unat (sequenceField p)) (snd (encodeCmds newUdpPacketCreator cs))
      = map unat (map sequenceField (snd (encodeCmds newUdpPacketCreator cs)))"
    by simp
  also have "\<dots> = map unat (map (\<lambda>k. 1 + word_of_nat k :: byte) [0..<length cs])"
    by (simp only: encodeCmds_sequenceFields seqRead_new add_0)
  also have "\<dots> = map (\<lambda>k. (k + 1) mod 256) [0..<length cs]"
  proof -
    have "unat (1 + word_of_nat k :: byte) = (k + 1) mod 256" for k
    proof -
      have "(1 + word_of_nat k :: byte) = word_of_nat (k + 1)" by simp
      then show ?thesis by (simp only: unat_of_nat) simp
    qed
    then show ?thesis by simp
  qed
  finally have fields: "map (\<lambda>p. unat (sequenceField p)) (snd (encodeCmds newUdpPacketCreator cs)) =
     map (\<lambda>k. (k + 1) mod 256) [0..<length cs]" .
  have counter: "unat (seqRead (fst (encodeCmds newUdpPacketCreator cs)) 10) = length cs mod 256"
    by (simp add: encodeCmds_counter seqRead_new unat_of_nat)
  from fields counter encodeCmd_sequenceField encodeCmd_counter show ?thesis by simp
qed

section \<open>Properties of the frame decoder\<close>

text \<open>
  C4, against the claim. A packet of 8 received bytes in a buffer of 16 whose size
  field says 12: the size exceeds the \<open>n - p = 8\<close> bytes left, and decode returns a frame
  whose payload has four bytes from beyond the packet. A packet of 3 received bytes:
  fewer than 7 are left, and decode panics on the slice \<^verbatim>\<open>data[7:0]\<close>.
\<close>

theorem decode_returns_bytes_beyond_packet:
  "networkUDPPacket_decode
     \<lparr>size_p = 8, data_p = [4, 11, 0x42, 12, 0, 0, 0, 1, 0, 0, 0, 0, 0, 0, 0, 0], framePos = 0\<rparr>
   = Inr (\<lparr>dataType = 4, targetBufferID = 11, sequenceNR = 0x42, size_f = 12,
            dataARNetwork = [1, 0, 0, 0, 0]\<rparr>,
          \<lparr>size_p = 8, data_p = [4, 11, 0x42, 12, 0, 0, 0, 1, 0, 0, 0, 0, 0, 0, 0, 0], framePos = 0\<rparr>,
          True) \<and>
   networkUDPPacket_decode
     \<lparr>size_p = 3, data_p = [2, 0, 0x7B, 0, 0, 0, 0, 0, 0, 0, 0, 0, 0, 0, 0, 0], framePos = 0\<rparr>
   = Inl SliceBoundsOutOfRange"
  by (simp add: networkUDPPacket_decode_def index_def slice_def Let_def)

text \<open>
  C4, as the code has it. Decode validates nothing and has no error but \<^verbatim>\<open>io.EOF\<close>, the
  mark of the last frame. With \<open>p\<close> the cursor, \<open>s\<close> the little-endian u32 at \<open>p + 3\<close> and
  \<open>len\<close> the length of the buffer (not the number \<open>n\<close> of bytes received): when
  \<open>0 \<le> p\<close>, \<open>p + 7 \<le> len\<close>, \<open>7 \<le> s\<close> and \<open>p + s \<le> len\<close> it returns the frame made of the
  three header bytes, the size \<open>s\<close> and the payload \<open>data[p+7 : p+s]\<close>; it moves the
  cursor to \<open>p + s\<close> when \<open>p + s + 7 \<le> n\<close> and returns \<^verbatim>\<open>io.EOF\<close> with the cursor unmoved
  otherwise. On every other input it panics: index out of range when one of the three
  header bytes is outside the buffer, slice bounds out of range otherwise.
\<close>

theorem decode_without_validation:
  "networkUDPPacket_decode pkt =
     (if 0 \<le> framePos pkt \<and> framePos pkt + 7 \<le> int (length (data_p pkt)) \<and>
         7 \<le> frameSizeField pkt \<and> framePos pkt + frameSizeField pkt \<le> int (length (data_p pkt))
      then Inr (\<lparr>dataType = uint (data_p pkt ! nat (framePos pkt)),
                 targetBufferID = uint (data_p pkt ! nat (framePos pkt + 1)),
                 sequenceNR = uint (data_p pkt ! nat (framePos pkt + 2)),
                 size_f = frameSizeField pkt,
                 dataARNetwork = take (nat (frameSizeField pkt - 7))
                                   (drop (nat (framePos pkt + 7)) (data_p pkt))\<rparr>,
                (if framePos pkt + frameSizeField pkt + 7 \<le> size_p pkt
                 then pkt\<lparr>framePos := framePos pkt + frameSizeField pkt\<rparr> else pkt),
                \<not> framePos pkt + frameSizeField pkt + 7 \<le> size_p pkt)
      else Inl (if 0 \<le> framePos pkt \<and> framePos pkt + 2 < int (length (data_p pkt))
                then SliceBoundsOutOfRange else IndexOutOfRange))"
  by (simp add: networkUDPPacket_decode_def index_def slice_def frameSizeField_def Let_def)

section \<open>Properties of the frame dispatcher\<close>

lemma handleFrame_ping:
  "targetBufferID f = 0 \<or> targetBufferID f = 1 \<Longrightarrow>
   handleFrame u f = (fst (encodePong u f), [snd (encodePong u f)], Inr None)"
  by (simp add: handleFrame_def split_beta)

lemma handleFrame_ack:
  "targetBufferID f \<noteq> 0 \<Longrightarrow> targetBufferID f \<noteq> 1 \<Longrightarrow> dataType f = 4 \<Longrightarrow>
   fst (snd (handleFrame u f)) =
     [snd (encodeAck u (targetBufferID f) (word_of_int (sequenceNR f)))]"
  by (simp add: handleFrame_def split_beta split: sum.splits)

lemma handleFrame_no_reply:
  "targetBufferID f \<noteq> 0 \<Longrightarrow> targetBufferID f \<noteq> 1 \<Longrightarrow> dataType f \<noteq> 4 \<Longrightarrow>
   fst (snd (handleFrame u f)) = [] \<and> fst (handleFrame u f) = u"
  by (simp add: handleFrame_def split_beta split: sum.splits)

text \<open>
  C1, the code at the frame 04 0b 42 0b000000 12345678 of the comment in \<open>encodeAck\<close>,
  received by a fresh creator. One ack is sent, with data type 1, buffer 139 = 128 + 11,
  size 8 and payload 0x42; its sequence-number field is 0x42, the sequence number of
  the frame received, while the counter of buffer 139 was 0 before and is 1 after.
\<close>

theorem ack_sequence_field_echoes_received:
  "snd (handlePacket newUdpPacketCreator
      \<lparr>size_p = 11, data_p = [0x04, 0x0B, 0x42, 0x0B, 0, 0, 0, 0x12, 0x34, 0x56, 0x78], framePos = 0\<rparr>)
   = ([\<lparr>size_p = 0, data_p = [0x01, 0x8B, 0x42, 0x08, 0, 0, 0, 0x42], framePos = 0\<rparr>], None) \<and>
   seqRead newUdpPacketCreator 0x8B = 0 \<and>
   seqRead (fst (handlePacket newUdpPacketCreator
      \<lparr>size_p = 11, data_p = [0x04, 0x0B, 0x42, 0x0B, 0, 0, 0, 0x12, 0x34, 0x56, 0x78], framePos = 0\<rparr>))
     0x8B = 1"
  by (simp add: networkUDPPacket_decode_def index_def slice_def handleFrame_def encodeAck_def
      protocolARNetworkAL_decode_def seqIncr_def seqRead_def newUdpPacketCreator_def Let_def)

text \<open>
  C2, the code at a ping on buffer 0 with a payload of two bytes, received by a fresh
  creator. One pong is sent, with data type 2, buffer 0 and the payload copied; the frame
  is 9 bytes long and its size field says 8. Its sequence-number field is 1, and the
  counter of buffer 0, 0 before, is 2 after.
\<close>

theorem pong_size_field_is_8:
  "snd (handlePacket newUdpPacketCreator
      \<lparr>size_p = 9, data_p = [0x02, 0x00, 0x7B, 0x09, 0, 0, 0, 0xAA, 0xBB], framePos = 0\<rparr>)
   = ([\<lparr>size_p = 0, data_p = [0x02, 0x00, 0x01, 0x08, 0, 0, 0, 0xAA, 0xBB], framePos = 0\<rparr>], None) \<and>
   seqRead newUdpPacketCreator 0 = 0 \<and>
   seqRead (fst (handlePacket newUdpPacketCreator
      \<lparr>size_p = 9, data_p = [0x02, 0x00, 0x7B, 0x09, 0, 0, 0, 0xAA, 0xBB], framePos = 0\<rparr>)) 0 = 2"
  by (simp add: networkUDPPacket_decode_def index_def slice_def handleFrame_def encodePong_def
      seqIncr_def seqRead_def newUdpPacketCreator_def Let_def)

section \<open>Properties of the input router\<close>

text \<open>
  C5, the code at the action Takeoff, with the command (project 1, class 0, command 1)
  and no argument bytes, on a fresh creator. The frame is put on \<^verbatim>\<open>chSendingUDPPacket\<close>;
  its first two bytes are 0x02 and 0x0A: data type Data, buffer 10.
\<close>

theorem takeoff_sent_as_data_on_buffer_10:
  "snd (handleInputAction
         (cs\<lparr>PilotingTakeOff := \<lparr>Project = 1, Class = 0, Cmd = 1\<rparr>, EncodeTakeOff := []\<rparr>)
         (newUdpPacketCreator, d) ActionTakeoff)
   = [chSendingUDPPacket
        \<lparr>size_p = 0, data_p = [0x02, 0x0A, 0x01, 0x0B, 0, 0, 0, 0x01, 0x00, 0x01, 0x00],
         framePos = 0\<rparr>]"
  by (simp add: handleInputAction_def encodeCmd_def convertCMDToBytes_def le32_def le16_def
      seqIncr_def seqRead_def newUdpPacketCreator_def Let_def)

lemma encodeCmd_header: "take 2 (data_p (snd (encodeCmd u c adata))) = [2, 10]"
  by (simp add: encodeCmd_data)

section \<open>Properties of the PCMD scheduler\<close>

lemma schedulerRun_invariant:
  "schedulerRun s evs = Some s' \<Longrightarrow>
     forwarded s' @ pcmdQueue s' = forwarded s @ pcmdQueue s @ sentPackets evs \<and>
     length (forwarded s') \<le> length (forwarded s) + ticks evs \<and>
     (length (pcmdQueue s) \<le> pcmdQueueCap \<longrightarrow> length (pcmdQueue s') \<le> pcmdQueueCap)"
proof (induction evs arbitrary: s)
  case Nil
  then show ?case by simp
next
  case (Cons ev evs)
  from Cons.prems obtain s1 where step: "schedulerStep s ev = Some s1"
    and run: "schedulerRun s1 evs = Some s'"
    by (auto split: option.splits)
  note ih = Cons.IH [OF run]
  show ?case
  proof (cases ev)
    case (PcmdSent p)
    with step have s1: "s1 = s\<lparr>pcmdQueue := pcmdQueue s @ [p]\<rparr>"
      and room: "length (pcmdQueue s) < pcmdQueueCap"
      by (auto simp add: schedulerStep_def split: if_splits)
    from ih s1 room PcmdSent show ?thesis by simp
  next
    case TickFired
    show ?thesis
    proof (cases "pcmdQueue s")
      case Nil
      with step TickFired have "s1 = s" by (simp add: schedulerStep_def)
      with ih TickFired show ?thesis by simp
    next
      case (Cons p ps)
      with step TickFired have "s1 = s\<lparr>pcmdQueue := ps, forwarded := forwarded s @ [p]\<rparr>"
        by (simp add: schedulerStep_def)
      with ih TickFired Cons show ?thesis by simp
    qed
  qed
qed

text \<open>While the channel has room for the packets sent, no send blocks.\<close>

lemma schedulerRun_enabled:
  "length (pcmdQueue s) + length (sentPackets evs) \<le> pcmdQueueCap \<Longrightarrow>
     \<exists>s'. schedulerRun s evs = Some s'"
proof (induction evs arbitrary: s)
  case Nil
  then show ?case by simp
next
  case (Cons ev evs)
  show ?case
  proof (cases ev)
    case (PcmdSent p)
    with Cons.prems have room: "length (pcmdQueue s) < pcmdQueueCap" by simp
    have "\<exists>s'. schedulerRun (s\<lparr>pcmdQueue := pcmdQueue s @ [p]\<rparr>) evs = Some s'"
      using Cons.prems PcmdSent by (intro Cons.IH) simp
    with room PcmdSent show ?thesis by (simp add: schedulerStep_def)
  next
    case TickFired
    show ?thesis
    proof (cases "pcmdQueue s")
      case Nil
      have "\<exists>s'. schedulerRun s evs = Some s'"
        using Cons.prems TickFired by (intro Cons.IH) simp
      with Nil TickFired show ?thesis by (simp add: schedulerStep_def)
    next
      case (Cons p ps)
      have "\<exists>s'. schedulerRun (s\<lparr>pcmdQueue := ps, forwarded := forwarded s @ [p]\<rparr>) evs = Some s'"
        using Cons.prems TickFired Cons by (intro Cons.IH) simp
      with Cons TickFired show ?thesis by (simp add: schedulerStep_def)
    qed
  qed
qed

text \<open>
  C7, against the claim: two packets are sent to the scheduler before the first tick.
  The first tick forwards the older one and the second tick the newer one: the older
  packet is neither replaced nor discarded.
\<close>

theorem pcmd_scheduler_keeps_older_packets:
  "schedulerRun \<lparr>pcmdQueue = [], forwarded = []\<rparr>
      [PcmdSent \<lparr>size_p = 0, data_p = [1], framePos = 0\<rparr>,
       PcmdSent \<lparr>size_p = 0, data_p = [2], framePos = 0\<rparr>, TickFired, TickFired]
     = Some \<lparr>pcmdQueue = [],
             forwarded = [\<lparr>size_p = 0, data_p = [1], framePos = 0\<rparr>,
                          \<lparr>size_p = 0, data_p = [2], framePos = 0\<rparr>]\<rparr>"
  by (simp add: schedulerStep_def pcmdQueueCap_def)

text \<open>With only ticks, one for each pending packet, the channel is drained in order.\<close>

lemma schedulerRun_drain:
  "pcmdQueue s = q \<Longrightarrow>
   schedulerRun s (replicate (length q) TickFired) =
     Some (s\<lparr>pcmdQueue := [], forwarded := forwarded s @ q\<rparr>)"
proof (induction q arbitrary: s)
  case Nil
  then have "s\<lparr>pcmdQueue := [], forwarded := forwarded s @ []\<rparr> = s" by simp
  then show ?case by simp
next
  case (Cons p ps)
  have step: "schedulerStep s TickFired = Some (s\<lparr>pcmdQueue := ps, forwarded := forwarded s @ [p]\<rparr>)"
    using Cons.prems by (simp add: schedulerStep_def)
  have rest: "schedulerRun (s\<lparr>pcmdQueue := ps, forwarded := forwarded s @ [p]\<rparr>)
        (replicate (length ps) TickFired)
      = Some (s\<lparr>pcmdQueue := [], forwarded := forwarded s @ p # ps\<rparr>)"
    using Cons.IH [of "s\<lparr>pcmdQueue := ps, forwarded := forwarded s @ [p]\<rparr>"] by simp
  show ?case by (simp add: step rest)
qed

lemma schedulerRun_forwarded_grows:
  "schedulerRun s evs = Some s' \<Longrightarrow> length (forwarded s) \<le> length (forwarded s')"
proof (induction evs arbitrary: s)
  case Nil
  then show ?case by simp
next
  case (Cons ev evs)
  from Cons.prems obtain s1 where step: "schedulerStep s ev = Some s1"
    and run: "schedulerRun s1 evs = Some s'"
    by (auto split: option.splits)
  from step have "length (forwarded s) \<le> length (forwarded s1)"
    by (auto simp add: schedulerStep_def split: schedulerEvent.splits if_splits list.splits)
  with Cons.IH [OF run] show ?case by simp
qed

text \<open>
  C7, as the code has it. A tick forwards exactly the oldest pending packet and leaves
  the others pending in their order, or forwards nothing when none is pending. A send is
  accepted while fewer than 100 packets are pending and puts the packet behind them; on
  a full channel it blocks. So in every run of sends and ticks, from any state: the
  packets forwarded followed by the packets pending are those of the start followed by
  the packets sent, in order, with none replaced or discarded; the run forwards at most
  one packet per tick; the channel never holds more than 100; no send blocks while the
  channel has room for the packets sent; and as many ticks as there are pending packets
  forward them all, oldest first.
\<close>

theorem pcmd_scheduler_fifo:
  "schedulerStep s TickFired =
     Some (case pcmdQueue s of
             [] \<Rightarrow> s
           | p # ps \<Rightarrow> s\<lparr>pcmdQueue := ps, forwarded := forwarded s @ [p]\<rparr>) \<and>
   schedulerStep s (PcmdSent p) =
     (if length (pcmdQueue s) < 100 then Some (s\<lparr>pcmdQueue := pcmdQueue s @ [p]\<rparr>) else None) \<and>
   (schedulerRun s evs = Some s' \<longrightarrow>
      forwarded s' @ pcmdQueue s' = forwarded s @ pcmdQueue s @ sentPackets evs \<and>
      length (forwarded s) \<le> length (forwarded s') \<and>
      length (forwarded s') \<le> length (forwarded s) + ticks evs \<and>
      (length (pcmdQueue s) \<le> 100 \<longrightarrow> length (pcmdQueue s') \<le> 100)) \<and>
   (length (pcmdQueue s) + length (sentPackets evs) \<le> 100 \<longrightarrow>
      (\<exists>s1. schedulerRun s evs = Some s1)) \<and>
   schedulerRun s (replicate (length (pcmdQueue s)) TickFired) =
     Some (s\<lparr>pcmdQueue := [], forwarded := forwarded s @ pcmdQueue s\<rparr>)"
proof -
  have tick: "schedulerStep s TickFired =
     Some (case pcmdQueue s of
             [] \<Rightarrow> s
           | p # ps \<Rightarrow> s\<lparr>pcmdQueue := ps, forwarded := forwarded s @ [p]\<rparr>)"
    by (simp add: schedulerStep_def split: list.splits)
  have send: "schedulerStep s (PcmdSent p) =
     (if length (pcmdQueue s) < 100 then Some (s\<lparr>pcmdQueue := pcmdQueue s @ [p]\<rparr>) else None)"
    by (simp add: schedulerStep_def pcmdQueueCap_def)
  have run: "schedulerRun s evs = Some s' \<longrightarrow>
      forwarded s' @ pcmdQueue s' = forwarded s @ pcmdQueue s @ sentPackets evs \<and>
      length (forwarded s) \<le> length (forwarded s') \<and>
      length (forwarded s') \<le> length (forwarded s) + ticks evs \<and>
      (length (pcmdQueue s) \<le> 100 \<longrightarrow> length (pcmdQueue s') \<le> 100)"
    using schedulerRun_invariant [of s evs s'] schedulerRun_forwarded_grows [of s evs s']
    by (simp add: pcmdQueueCap_def)
  have enabled: "length (pcmdQueue s) + length (sentPackets evs) \<le> 100 \<longrightarrow>
      (\<exists>s1. schedulerRun s evs = Some s1)"
    using schedulerRun_enabled [of s evs] by (simp add: pcmdQueueCap_def)
  have drain: "schedulerRun s (replicate (length (pcmdQueue s)) TickFired) =
     Some (s\<lparr>pcmdQueue := [], forwarded := forwarded s @ pcmdQueue s\<rparr>)"
    by (rule schedulerRun_drain) simp
  from tick send run enabled drain show ?thesis by blast
qed

theorem pcmd_scheduler_fifo_witness:
  "schedulerStep
      \<lparr>pcmdQueue = [\<lparr>size_p = 0, data_p = [1], framePos = 0\<rparr>,
                    \<lparr>size_p = 0, data_p = [2], framePos = 0\<rparr>],
       forwarded = [\<lparr>size_p = 0, data_p = [0], framePos = 0\<rparr>]\<rparr> TickFired
     = Some \<lparr>pcmdQueue = [\<lparr>size_p = 0, data_p = [2], framePos = 0\<rparr>],
             forwarded = [\<lparr>size_p = 0, data_p = [0], framePos = 0\<rparr>,
                          \<lparr>size_p = 0, data_p = [1], framePos = 0\<rparr>]\<rparr> \<and>
   schedulerRun
      \<lparr>pcmdQueue = [\<lparr>size_p = 0, data_p = [1], framePos = 0\<rparr>,
                    \<lparr>size_p = 0, data_p = [2], framePos = 0\<rparr>],
       forwarded = [\<lparr>size_p = 0, data_p = [0], framePos = 0\<rparr>]\<rparr>
      [PcmdSent \<lparr>size_p = 0, data_p = [3], framePos = 0\<rparr>, TickFired]
     = Some \<lparr>pcmdQueue = [\<lparr>size_p = 0, data_p = [2], framePos = 0\<rparr>,
                          \<lparr>size_p = 0, data_p = [3], framePos = 0\<rparr>],
             forwarded = [\<lparr>size_p = 0, data_p = [0], framePos = 0\<rparr>,
                          \<lparr>size_p = 0, data_p = [1], framePos = 0\<rparr>]\<rparr> \<and>
   [\<lparr>size_p = 0, data_p = [0], framePos = 0\<rparr>, \<lparr>size_p = 0, data_p = [1], framePos = 0\<rparr>]
     @ [\<lparr>size_p = 0, data_p = [2], framePos = 0\<rparr>, \<lparr>size_p = 0, data_p = [3], framePos = 0\<rparr>]
     = [\<lparr>size_p = 0, data_p = [0], framePos = 0\<rparr>]
       @ [\<lparr>size_p = 0, data_p = [1], framePos = 0\<rparr>, \<lparr>size_p = 0, data_p = [2], framePos = 0\<rparr>]
       @ sentPackets [PcmdSent \<lparr>size_p = 0, data_p = [3], framePos = 0\<rparr>, TickFired] \<and>
   schedulerRun
      \<lparr>pcmdQueue = [\<lparr>size_p = 0, data_p = [1], framePos = 0\<rparr>,
                    \<lparr>size_p = 0, data_p = [2], framePos = 0\<rparr>],
       forwarded = [\<lparr>size_p = 0, data_p = [0], framePos = 0\<rparr>]\<rparr>
      [TickFired, TickFired]
     = Some \<lparr>pcmdQueue = [],
             forwarded = [\<lparr>size_p = 0, data_p = [0], framePos = 0\<rparr>,
                          \<lparr>size_p = 0, data_p = [1], framePos = 0\<rparr>,
                          \<lparr>size_p = 0, data_p = [2], framePos = 0\<rparr>]\<rparr>"
proof -
  have run: "schedulerRun
      \<lparr>pcmdQueue = [\<lparr>size_p = 0, data_p = [1], framePos = 0\<rparr>,
                    \<lparr>size_p = 0, data_p = [2], framePos = 0\<rparr>],
       forwarded = [\<lparr>size_p = 0, data_p = [0], framePos = 0\<rparr>]\<rparr>
      [PcmdSent \<lparr>size_p = 0, data_p = [3], framePos = 0\<rparr>, TickFired]
     = Some \<lparr>pcmdQueue = [\<lparr>size_p = 0, data_p = [2], framePos = 0\<rparr>,
                          \<lparr>size_p = 0, data_p = [3], framePos = 0\<rparr>],
             forwarded = [\<lparr>size_p = 0, data_p = [0], framePos = 0\<rparr>,
                          \<lparr>size_p = 0, data_p = [1], framePos = 0\<rparr>]\<rparr>"
    by (simp add: schedulerStep_def pcmdQueueCap_def)
  from pcmd_scheduler_fifo
    [where s = "\<lparr>pcmdQueue = [\<lparr>size_p = 0, data_p = [1], framePos = 0\<rparr>,
                                \<lparr>size_p = 0, data_p = [2], framePos = 0\<rparr>],
                   forwarded = [\<lparr>size_p = 0, data_p = [0], framePos = 0\<rparr>]\<rparr>"
       and evs = "[PcmdSent \<lparr>size_p = 0, data_p = [3], framePos = 0\<rparr>, TickFired]"
       and s' = "\<lparr>pcmdQueue = [\<lparr>size_p = 0, data_p = [2], framePos = 0\<rparr>,
                                 \<lparr>size_p = 0, data_p = [3], framePos = 0\<rparr>],
                    forwarded = [\<lparr>size_p = 0, data_p = [0], framePos = 0\<rparr>,
                                 \<lparr>size_p = 0, data_p = [1], framePos = 0\<rparr>]\<rparr>"
       and p = "\<lparr>size_p = 0, data_p = [3], framePos = 0\<rparr>"]
    run
  show ?thesis by (simp add: schedulerStep_def pcmdQueueCap_def)
qed

section \<open>Properties of discovery\<close>

lemma dropWhile_zero_replicate:
  "dropWhile (\<lambda>b. b = 0) (replicate n (0 :: byte) @ xs) = dropWhile (\<lambda>b. b = 0) xs"
  by (induction n) simp_all

lemma trimZero_padding: "trimZero (bs @ replicate n 0) = trimZero bs"
proof (cases "\<forall>b \<in> set bs. b = 0")
  case True
  then have a: "dropWhile (\<lambda>b. b = 0) (bs @ replicate n 0) = []"
    by (simp add: dropWhile_append)
  from True have b: "dropWhile (\<lambda>b. b = 0) bs = []" by simp
  show ?thesis by (simp add: trimZero_def a b)
next
  case False
  then have "dropWhile (\<lambda>b. b = 0) (bs @ replicate n 0)
      = dropWhile (\<lambda>b. b = 0) bs @ replicate n 0"
    by (auto simp add: dropWhile_append1)
  then show ?thesis
    by (simp add: trimZero_def dropWhile_zero_replicate)
qed

lemma discover_data_short:
  "length received \<le> 1024 \<Longrightarrow>
   trimZero (take 1024 received @ replicate (1024 - length received) 0) = trimZero received"
  by (simp add: trimZero_padding)

lemma trimZero_responseStatus1:
  "trimZero (take 1024 responseStatus1 @ replicate (1024 - length responseStatus1) 0)
     = responseStatus1"
  by (subst discover_data_short) (simp_all add: responseStatus1_def trimZero_def)

lemma trimZero_responseStatus0:
  "trimZero (take 1024 (responseStatus0 @ [0, 0])
       @ replicate (1024 - length (responseStatus0 @ [0, 0])) 0)
     = responseStatus0"
  by (subst discover_data_short) (simp_all add: responseStatus0_def trimZero_def)

lemma trimZero_empty:
  "trimZero (take 1024 ([] :: byte list) @ replicate (1024 - length ([] :: byte list)) 0) = []"
  by (subst discover_data_short) (simp_all add: trimZero_def)

lemma responses_differ: "responseStatus0 \<noteq> responseStatus1"
  by (simp add: responseStatus0_def responseStatus1_def)

text \<open>
  C8, against the claim. The response is the object with status 1: the call does not
  return, \<^verbatim>\<open>log.Fatal\<close> ends the process. The response is empty, on which
  \<^verbatim>\<open>json.Unmarshal\<close> fails: the call returns no error and sets the port to "0".
\<close>

theorem discover_exits_or_ignores_parse_error:
  "Discover \<lparr>dialResult = None, writeResult = None, readResult = Inr responseStatus1,
             jsonUnmarshal = jsonUnmarshalFixture\<rparr> NewDrone = ProcessExit \<and>
   jsonUnmarshalFixture [] discoverDataZero = (True, discoverDataZero) \<and>
   Discover \<lparr>dialResult = None, writeResult = None, readResult = Inr [],
             jsonUnmarshal = jsonUnmarshalFixture\<rparr> NewDrone
     = Returned (NewDrone\<lparr>portC2D := ''0''\<rparr>, None)"
proof -
  have a: "Discover \<lparr>dialResult = None, writeResult = None, readResult = Inr responseStatus1,
             jsonUnmarshal = jsonUnmarshalFixture\<rparr> NewDrone = ProcessExit"
    apply (simp only: Discover_def Let_def discoverEnv.select_convs option.case sum.case
        trimZero_responseStatus1)
    apply (simp add: jsonUnmarshalFixture_def discoverDataZero_def)
    done
  have e: "[] \<noteq> responseStatus1" "[] \<noteq> responseStatus0"
    by (simp_all add: responseStatus0_def responseStatus1_def)
  from e have b: "jsonUnmarshalFixture [] discoverDataZero = (True, discoverDataZero)"
    by (simp add: jsonUnmarshalFixture_def)
  have c: "Discover \<lparr>dialResult = None, writeResult = None, readResult = Inr [],
             jsonUnmarshal = jsonUnmarshalFixture\<rparr> NewDrone
     = Returned (NewDrone\<lparr>portC2D := ''0''\<rparr>, None)"
    apply (simp only: Discover_def Let_def discoverEnv.select_convs option.case sum.case
        trimZero_empty)
    apply (simp add: jsonUnmarshalFixture_def e discoverDataZero_def Itoa_def)
    done
  from a b c show ?thesis by simp
qed

text \<open>
  C8, as the code has it. \<open>Discover\<close> returns an error to its caller exactly when dialling
  or reading fails. Once the response is read, whether \<^verbatim>\<open>json.Unmarshal\<close> failed plays
  no part: when the status of the struct it left is not 0 the process ends, and otherwise
  \<open>Discover\<close> returns no error, with the C2D port set to the decimal form of the struct's
  \<^verbatim>\<open>c2d_port\<close>.
\<close>

theorem discover_outcomes:
  "(dialResult env = None \<and> readResult env = Inr received \<longrightarrow>
      Discover env d =
        (if Status (discoverParsed env received) \<noteq> 0 then ProcessExit
         else Returned (d\<lparr>portC2D := Itoa (C2dPort (discoverParsed env received))\<rparr>, None))) \<and>
   ((\<exists>d' e. Discover env d = Returned (d', Some e)) =
      (dialResult env \<noteq> None \<or> isl (readResult env)))"
proof -
  have ok: "dialResult env = None \<and> readResult env = Inr received \<longrightarrow>
      Discover env d =
        (if Status (discoverParsed env received) \<noteq> 0 then ProcessExit
         else Returned (d\<lparr>portC2D := Itoa (C2dPort (discoverParsed env received))\<rparr>, None))"
    by (simp add: Discover_def discoverParsed_def Let_def split_beta)
  have err: "(\<exists>d' e. Discover env d = Returned (d', Some e)) =
      (dialResult env \<noteq> None \<or> isl (readResult env))"
    by (auto simp add: Discover_def Let_def split_beta isl_def split: option.splits sum.splits)
  from ok err show ?thesis by simp
qed

theorem discover_outcomes_witness:
  "Discover \<lparr>dialResult = None, writeResult = None, readResult = Inr (responseStatus0 @ [0, 0]),
             jsonUnmarshal = jsonUnmarshalFixture\<rparr> NewDrone
     = Returned (NewDrone\<lparr>portC2D := ''54321''\<rparr>, None)"
proof -
  have parsed: "discoverParsed
      \<lparr>dialResult = None, writeResult = None, readResult = Inr (responseStatus0 @ [0, 0]),
       jsonUnmarshal = jsonUnmarshalFixture\<rparr> (responseStatus0 @ [0, 0])
      = discoverDataZero\<lparr>Status := 0, C2dPort := 54321\<rparr>"
    apply (simp only: discoverParsed_def discoverEnv.select_convs trimZero_responseStatus0)
    apply (simp add: jsonUnmarshalFixture_def responses_differ)
    done
  have port: "Itoa 54321 = ''54321''"
    by (simp add: Itoa_def)
  from discover_outcomes
    [where env = "\<lparr>dialResult = None, writeResult = None,
                    readResult = Inr (responseStatus0 @ [0, 0]),
                    jsonUnmarshal = jsonUnmarshalFixture\<rparr>"
       and received = "responseStatus0 @ [0, 0]" and d = NewDrone]
  show ?thesis
    by (simp add: parsed port discoverDataZero_def)
qed

end
